theory Spec2Isabelle
  imports Main "HOL-Library.AList" "HOL-Library.Sublist" "HOL-Library.List_Lexorder"
begin

section \<open>Strings and paths\<close>

text \<open>
  Go strings are byte sequences; a \<^typ>\<open>string\<close> is a list of bytes. The helpers
  below are the standard-library functions the program calls, written for the bytes of
  ASCII text: \<open>strings.ToLower\<close> maps \<open>A\<close>..\<open>Z\<close> to \<open>a\<close>..\<open>z\<close>,
  \<open>strings.TrimSpace\<close> strips tab, line feed, vertical tab, form feed, carriage return
  and space from both ends. Bytes above 127 are left alone. Paths are those of a Unix
  build: the separator is the forward slash.
\<close>

type_synonym path = string

definition Separator :: char where
  "Separator = CHR ''/''"

definition toLowerByte :: "char \<Rightarrow> char" where
  "toLowerByte c =
     (let n = (of_char c :: nat) in if 65 \<le> n \<and> n \<le> 90 then char_of (n + 32) else c)"

definition ToLower :: "string \<Rightarrow> string" where
  "ToLower s = map toLowerByte s"

definition isSpace :: "char \<Rightarrow> bool" where
  "isSpace c = (let n = (of_char c :: nat) in (9 \<le> n \<and> n \<le> 13) \<or> n = 32)"

definition TrimSpace :: "string \<Rightarrow> string" where
  "TrimSpace s = rev (dropWhile isSpace (rev (dropWhile isSpace s)))"

definition HasPrefix :: "string \<Rightarrow> string \<Rightarrow> bool" where
  "HasPrefix s pre = (take (length pre) s = pre)"

text \<open>
  \<open>filepath.Ext\<close> scans the path from its end: the extension starts at the last dot
  of the last path element and is empty when that element has no dot. The scan runs
  over the reversed path with the suffix read so far.
\<close>

fun extScan :: "string \<Rightarrow> string \<Rightarrow> string" where
  "extScan [] acc = []"
| "extScan (c # cs) acc =
     (if c = Separator then []
      else if c = CHR ''.'' then c # acc
      else extScan cs (c # acc))"

definition Ext :: "path \<Rightarrow> string" where
  "Ext p = extScan (rev p) []"

text \<open>\<open>filepath.ToSlash\<close>: the identity where the separator already is a slash.\<close>

definition ToSlash :: "path \<Rightarrow> path" where
  "ToSlash p =
     (if Separator = CHR ''/'' then p
      else map (\<lambda>c. if c = Separator then CHR ''/'' else c) p)"

section \<open>Configuration records\<close>

text \<open>
  The schedule, hook and pair structures of the configuration package. Times are
  integers (nanoseconds); a nil pointer is \<^const>\<open>None\<close>. A hook's HTTP and command
  bodies play no part in filtering and are kept as their two discriminating strings.
\<close>

record CustomSchedule =
  WeekDays :: "nat list"
  StartTime :: string
  EndTime :: string
  CInterval :: string

record Schedule =
  Type :: string
  Interval :: string
  CronExpr :: string
  Custom :: "CustomSchedule option"
  StartDate :: "int option"
  EndDate :: "int option"
  MaxRuns :: int

definition ScheduleTypeDisabled :: string where "ScheduleTypeDisabled = ''disabled''"
definition ScheduleTypeWatcher :: string where "ScheduleTypeWatcher = ''watcher''"
definition ScheduleTypeInterval :: string where "ScheduleTypeInterval = ''interval''"
definition ScheduleTypeCron :: string where "ScheduleTypeCron = ''cron''"
definition ScheduleTypeCustom :: string where "ScheduleTypeCustom = ''custom''"

record Hook =
  MatchExtensions :: "string list"
  MatchGlobs :: "string list"
  HTTP_URL :: "string option"
  Command_Executable :: "string option"

record Pair =
  ID :: string
  Enabled :: bool
  Source :: path
  Target :: path
  IncludeExt :: "string list"
  ExcludeGlobs :: "string list"
  SyncStrategy :: string
  DebounceMs :: int
  MirrorDeletes :: bool
  Hooks :: "Hook list"
  PSchedule :: Schedule
  Description :: string

section \<open>Filters\<close>

text \<open>
  \<open>MatchesInclude\<close> (filters.go): an empty list includes everything; otherwise the
  lowercased extension of the path must equal a lowercased entry. The \<open>for\<close> loop
  returns at the first match.
\<close>

fun includeLoop :: "string list \<Rightarrow> string \<Rightarrow> bool" where
  "includeLoop [] fileExt = False"
| "includeLoop (allowedExt # rest) fileExt =
     (if ToLower allowedExt = fileExt then True else includeLoop rest fileExt)"

definition MatchesInclude :: "string list \<Rightarrow> path \<Rightarrow> bool" where
  "MatchesInclude extensions filePath =
     (if length extensions = 0 then True
      else includeLoop extensions (ToLower (Ext filePath)))"

text \<open>
  The glob matcher \<open>doublestar.PathMatch\<close> is a library outside the repository: it is
  the parameter \<open>pathMatch pattern name\<close>, true when the library reports a match
  (a malformed pattern reports none). \<open>MatchesExclude\<close> and \<open>MatchesAnyGlob\<close> have
  the same body in the source.
\<close>

type_synonym matcher = "string \<Rightarrow> path \<Rightarrow> bool"

fun globLoop :: "matcher \<Rightarrow> string list \<Rightarrow> path \<Rightarrow> bool" where
  "globLoop pathMatch [] normalizedPath = False"
| "globLoop pathMatch (pattern # rest) normalizedPath =
     (if pathMatch pattern normalizedPath then True
      else globLoop pathMatch rest normalizedPath)"

definition MatchesExclude :: "matcher \<Rightarrow> string list \<Rightarrow> path \<Rightarrow> bool" where
  "MatchesExclude pathMatch globs filePath =
     (if length globs = 0 then False
      else globLoop pathMatch globs (ToSlash filePath))"

definition MatchesAnyGlob :: "matcher \<Rightarrow> string list \<Rightarrow> path \<Rightarrow> bool" where
  "MatchesAnyGlob pathMatch globs filePath =
     (if length globs = 0 then False
      else globLoop pathMatch globs (ToSlash filePath))"

definition ShouldIncludeFile :: "matcher \<Rightarrow> string list \<Rightarrow> string list \<Rightarrow> path \<Rightarrow> bool" where
  "ShouldIncludeFile pathMatch includeExtensions excludeGlobs filePath =
     (if \<not> MatchesInclude includeExtensions filePath then False
      else if MatchesExclude pathMatch excludeGlobs filePath then False
      else True)"

text \<open>\<open>ShouldTriggerHook\<close> (filters.go) and \<open>shouldTriggerHook\<close> (hooks.go).\<close>

definition ShouldTriggerHook :: "matcher \<Rightarrow> string list \<Rightarrow> string list \<Rightarrow> path \<Rightarrow> bool" where
  "ShouldTriggerHook pathMatch hookExtensions hookGlobs filePath =
     (if length hookExtensions = 0 \<and> length hookGlobs = 0 then True
      else if length hookExtensions > 0 \<and> MatchesInclude hookExtensions filePath then True
      else if length hookGlobs > 0 \<and> MatchesAnyGlob pathMatch hookGlobs filePath then True
      else False)"

definition shouldTriggerHook :: "matcher \<Rightarrow> Hook \<Rightarrow> path \<Rightarrow> bool" where
  "shouldTriggerHook pathMatch hook filePath =
     (if length (MatchExtensions hook) = 0 \<and> length (MatchGlobs hook) = 0 then True
      else if length (MatchExtensions hook) > 0
              \<and> MatchesInclude (MatchExtensions hook) filePath then True
      else if length (MatchGlobs hook) > 0
              \<and> MatchesAnyGlob pathMatch (MatchGlobs hook) filePath then True
      else False)"

text \<open>
  \<open>normalizeIncludeExtensions\<close> (pair.go) rewrites the pair's include list. The loop
  state is the list built so far, the wildcard flag and the set of entries seen.
\<close>

fun normalizeLoop ::
  "string list \<Rightarrow> string list \<times> bool \<times> string set \<Rightarrow> string list \<times> bool \<times> string set" where
  "normalizeLoop [] st = st"
| "normalizeLoop (ext # rest) (normalized, matchAll, seen) =
     (let cleanExt = TrimSpace (ToLower ext) in
      if cleanExt = [] then normalizeLoop rest (normalized, matchAll, seen)
      else if cleanExt = ''*'' \<or> cleanExt = ''.*''
        then normalizeLoop rest (normalized, True, seen)
      else
        (let cleanExt' = (if \<not> HasPrefix cleanExt ''.'' then ''.'' @ cleanExt else cleanExt) in
         if cleanExt' \<notin> seen
           then normalizeLoop rest (normalized @ [cleanExt'], matchAll, insert cleanExt' seen)
         else normalizeLoop rest (normalized, matchAll, seen)))"

definition normalizeIncludeExtensions :: "Pair \<Rightarrow> Pair" where
  "normalizeIncludeExtensions pair =
     (if length (IncludeExt pair) = 0 then pair
      else
        (case normalizeLoop (IncludeExt pair) ([], False, {}) of
           (normalized, matchAll, seen) \<Rightarrow>
             if matchAll \<or> length normalized = 0 then pair\<lparr>IncludeExt := []\<rparr>
             else pair\<lparr>IncludeExt := normalized\<rparr>))"

section \<open>Scheduler\<close>

text \<open>
  Library calls of the scheduler are parameters: \<open>time.ParseDuration\<close>, the
  \<open>HH:MM\<close> parser \<open>time.Parse "15:04"\<close>, and the cron library, which either
  rejects an expression or tells the next firing time after a given instant.
\<close>

record Lib =
  ParseDuration :: "string \<Rightarrow> int option"
  ParseClock :: "string \<Rightarrow> int option"
  CronNext :: "string \<Rightarrow> int \<Rightarrow> int option"

datatype error =
    TaskExists string
  | TaskNotFound string
  | ScheduleFailed string error
  | RescheduleFailed string error
  | InvalidInterval string
  | InvalidCron string
  | CustomMissing
  | InvalidCustomInterval string
  | InvalidStartTime string
  | InvalidEndTime string
  | UnsupportedScheduleType string
  | TickerPanic

text \<open>
  A task with its statistics and internal handles. The callable is the type parameter;
  \<open>cronEntry = 0\<close> means no cron entry, \<open>ticker = None\<close> a nil ticker, and
  \<open>stopChan\<close> counts how often the stop channel was replaced. Counters are Go
  \<open>int\<close>s (64 bit), far from wrapping, and are integers here.
\<close>

record 'f Task =
  TID :: string
  Name :: string
  TSchedule :: Schedule
  TEnabled :: bool
  LastRun :: "int option"
  NextRun :: "int option"
  RunCount :: int
  FailCount :: int
  LastError :: string
  fn :: 'f
  cronEntry :: nat
  ticker :: "int option"
  stopChan :: nat

text \<open>The cron library's registry: the last entry id handed out and the live entries.\<close>

record Cron =
  nextID :: nat
  cronEntries :: "(nat \<times> string) list"

record 'f Scheduler =
  tasks :: "string \<rightharpoonup> 'f Task"
  cron :: Cron

definition NewScheduler :: "'f Scheduler" where
  "NewScheduler = \<lparr>tasks = Map.empty, cron = \<lparr>nextID = 0, cronEntries = []\<rparr>\<rparr>"

definition Minute :: int where
  "Minute = 60000000000"

text \<open>\<open>time.NewTicker\<close> panics on a non-positive period; the panic is reported as an error value.\<close>

definition scheduleIntervalTask :: "Lib \<Rightarrow> int \<Rightarrow> 'f Task \<Rightarrow> error + 'f Task" where
  "scheduleIntervalTask lib now task =
     (case ParseDuration lib (Interval (TSchedule task)) of
        None \<Rightarrow> Inl (InvalidInterval (Interval (TSchedule task)))
      | Some interval \<Rightarrow>
          if interval \<le> 0 then Inl TickerPanic
          else Inr (task\<lparr>ticker := Some interval, NextRun := Some (now + interval)\<rparr>))"

definition scheduleCronTask :: "Lib \<Rightarrow> int \<Rightarrow> Cron \<Rightarrow> 'f Task \<Rightarrow> error + (Cron \<times> 'f Task)" where
  "scheduleCronTask lib now c task =
     (case CronNext lib (CronExpr (TSchedule task)) now of
        None \<Rightarrow> Inl (InvalidCron (CronExpr (TSchedule task)))
      | Some next \<Rightarrow>
          (let entryID = Suc (nextID c);
               c' = c\<lparr>nextID := entryID,
                      cronEntries := cronEntries c @ [(entryID, CronExpr (TSchedule task))]\<rparr>
           in Inr (c', task\<lparr>cronEntry := entryID, NextRun := Some next\<rparr>)))"

definition validateCustomSchedule :: "Lib \<Rightarrow> CustomSchedule \<Rightarrow> error option" where
  "validateCustomSchedule lib custom =
     (if ParseDuration lib (CInterval custom) = None
        then Some (InvalidCustomInterval (CInterval custom))
      else if ParseClock lib (StartTime custom) = None
        then Some (InvalidStartTime (StartTime custom))
      else if ParseClock lib (EndTime custom) = None
        then Some (InvalidEndTime (EndTime custom))
      else None)"

definition calculateCheckInterval :: "int \<Rightarrow> int" where
  "calculateCheckInterval interval = (if interval < Minute then interval else Minute)"

definition scheduleCustomTask :: "Lib \<Rightarrow> int \<Rightarrow> 'f Task \<Rightarrow> error + 'f Task" where
  "scheduleCustomTask lib now task =
     (case Custom (TSchedule task) of
        None \<Rightarrow> Inl CustomMissing
      | Some custom \<Rightarrow>
          (case validateCustomSchedule lib custom of
             Some err \<Rightarrow> Inl err
           | None \<Rightarrow>
               (let interval = the (ParseDuration lib (CInterval custom));
                    checkInterval = calculateCheckInterval interval
                in if checkInterval \<le> 0 then Inl TickerPanic
                   else Inr (task\<lparr>ticker := Some checkInterval,
                                  NextRun := Some (now + interval)\<rparr>))))"

definition scheduleTask :: "Lib \<Rightarrow> int \<Rightarrow> Cron \<Rightarrow> 'f Task \<Rightarrow> error + (Cron \<times> 'f Task)" where
  "scheduleTask lib now c task =
     (if Type (TSchedule task) = ScheduleTypeDisabled then Inr (c, task)
      else if Type (TSchedule task) = ScheduleTypeWatcher then Inr (c, task)
      else if Type (TSchedule task) = ScheduleTypeInterval
        then (case scheduleIntervalTask lib now task of
                Inl err \<Rightarrow> Inl err | Inr task' \<Rightarrow> Inr (c, task'))
      else if Type (TSchedule task) = ScheduleTypeCron then scheduleCronTask lib now c task
      else if Type (TSchedule task) = ScheduleTypeCustom
        then (case scheduleCustomTask lib now task of
                Inl err \<Rightarrow> Inl err | Inr task' \<Rightarrow> Inr (c, task'))
      else Inl (UnsupportedScheduleType (Type (TSchedule task))))"

definition unscheduleTask :: "Cron \<Rightarrow> 'f Task \<Rightarrow> Cron \<times> 'f Task" where
  "unscheduleTask c task =
     (let c' = (if cronEntry task \<noteq> 0
                then c\<lparr>cronEntries := filter (\<lambda>e. fst e \<noteq> cronEntry task) (cronEntries c)\<rparr>
                else c)
      in (c', task\<lparr>cronEntry := 0, ticker := None, stopChan := Suc (stopChan task),
                   NextRun := None\<rparr>))"

text \<open>
  The registry operations return the error (\<open>None\<close> for \<open>nil\<close>) and the scheduler
  as the call leaves it; a task is a pointer in the source, so what a call changed
  before failing stays changed.
\<close>

definition AddTask ::
  "Lib \<Rightarrow> int \<Rightarrow> string \<Rightarrow> string \<Rightarrow> Schedule \<Rightarrow> 'f \<Rightarrow> 'f Scheduler \<Rightarrow> error option \<times> 'f Scheduler" where
  "AddTask lib now tid name schedule f s =
     (if tasks s tid \<noteq> None then (Some (TaskExists tid), s)
      else
        (let task = \<lparr>TID = tid, Name = name, TSchedule = schedule, TEnabled = True,
                     LastRun = None, NextRun = None, RunCount = 0, FailCount = 0,
                     LastError = [], fn = f, cronEntry = 0, ticker = None, stopChan = 0\<rparr>
         in case scheduleTask lib now (cron s) task of
              Inl err \<Rightarrow> (Some (ScheduleFailed tid err), s)
            | Inr (c', task') \<Rightarrow> (None, s\<lparr>tasks := (tasks s)(tid \<mapsto> task'), cron := c'\<rparr>)))"

definition RemoveTask :: "string \<Rightarrow> 'f Scheduler \<Rightarrow> error option \<times> 'f Scheduler" where
  "RemoveTask tid s =
     (case tasks s tid of
        None \<Rightarrow> (Some (TaskNotFound tid), s)
      | Some task \<Rightarrow>
          (case unscheduleTask (cron s) task of
             (c', task') \<Rightarrow> (None, s\<lparr>tasks := (tasks s)(tid := None), cron := c'\<rparr>)))"

definition UpdateTask ::
  "Lib \<Rightarrow> int \<Rightarrow> string \<Rightarrow> Schedule \<Rightarrow> 'f Scheduler \<Rightarrow> error option \<times> 'f Scheduler" where
  "UpdateTask lib now tid schedule s =
     (case tasks s tid of
        None \<Rightarrow> (Some (TaskNotFound tid), s)
      | Some task \<Rightarrow>
          (case unscheduleTask (cron s) task of
             (c1, task1) \<Rightarrow>
               (let task2 = task1\<lparr>TSchedule := schedule\<rparr> in
                if TEnabled task2
                  then (case scheduleTask lib now c1 task2 of
                          Inl err \<Rightarrow>
                            (Some (RescheduleFailed tid err),
                             s\<lparr>tasks := (tasks s)(tid \<mapsto> task2), cron := c1\<rparr>)
                        | Inr (c2, task3) \<Rightarrow>
                            (None, s\<lparr>tasks := (tasks s)(tid \<mapsto> task3), cron := c2\<rparr>))
                else (None, s\<lparr>tasks := (tasks s)(tid \<mapsto> task2), cron := c1\<rparr>))))"

definition EnableTask :: "Lib \<Rightarrow> int \<Rightarrow> string \<Rightarrow> 'f Scheduler \<Rightarrow> error option \<times> 'f Scheduler" where
  "EnableTask lib now tid s =
     (case tasks s tid of
        None \<Rightarrow> (Some (TaskNotFound tid), s)
      | Some task \<Rightarrow>
          if TEnabled task then (None, s)
          else
            (let task1 = task\<lparr>TEnabled := True\<rparr> in
             case scheduleTask lib now (cron s) task1 of
               Inl err \<Rightarrow> (Some err, s\<lparr>tasks := (tasks s)(tid \<mapsto> task1)\<rparr>)
             | Inr (c', task2) \<Rightarrow> (None, s\<lparr>tasks := (tasks s)(tid \<mapsto> task2), cron := c'\<rparr>)))"

definition DisableTask :: "string \<Rightarrow> 'f Scheduler \<Rightarrow> error option \<times> 'f Scheduler" where
  "DisableTask tid s =
     (case tasks s tid of
        None \<Rightarrow> (Some (TaskNotFound tid), s)
      | Some task \<Rightarrow>
          if \<not> TEnabled task then (None, s)
          else
            (case unscheduleTask (cron s) (task\<lparr>TEnabled := False\<rparr>) of
               (c', task') \<Rightarrow> (None, s\<lparr>tasks := (tasks s)(tid \<mapsto> task'), cron := c'\<rparr>)))"

text \<open>
  \<open>executeTask\<close>: what the task function did is the \<open>outcome\<close>. A panic unwinds
  past the rest of the body into the deferred handler; a returned error or \<open>nil\<close>
  falls through to the final \<open>task.RunCount++\<close>.
\<close>

datatype outcome = ReturnsNil | ReturnsError string | Panics string

fun executeTask :: "int \<Rightarrow> outcome \<Rightarrow> 'f Task \<Rightarrow> 'f Task" where
  "executeTask startTime (Panics r) task =
     (let task1 = task\<lparr>LastRun := Some startTime\<rparr>
      in task1\<lparr>FailCount := FailCount task1 + 1, LastError := ''panic: '' @ r\<rparr>)"
| "executeTask startTime (ReturnsError msg) task =
     (let task1 = task\<lparr>LastRun := Some startTime\<rparr>;
          task2 = task1\<lparr>FailCount := FailCount task1 + 1, LastError := msg\<rparr>
      in task2\<lparr>RunCount := RunCount task2 + 1\<rparr>)"
| "executeTask startTime ReturnsNil task =
     (let task1 = task\<lparr>LastRun := Some startTime\<rparr>;
          task2 = task1\<lparr>LastError := []\<rparr>
      in task2\<lparr>RunCount := RunCount task2 + 1\<rparr>)"

text \<open>
  \<open>RunTaskNow\<close> looks the task up and runs it in a goroutine; the scheduler after the
  goroutine has finished is the one with the task's statistics updated.
\<close>

definition RunTaskNow ::
  "int \<Rightarrow> outcome \<Rightarrow> string \<Rightarrow> 'f Scheduler \<Rightarrow> error option \<times> 'f Scheduler" where
  "RunTaskNow startTime res tid s =
     (case tasks s tid of
        None \<Rightarrow> (Some (TaskNotFound tid), s)
      | Some task \<Rightarrow> (None, s\<lparr>tasks := (tasks s)(tid \<mapsto> executeTask startTime res task)\<rparr>))"

section \<open>Pair manager\<close>

text \<open>
  A worker is its pair and whether it runs (\<open>cancel \<noteq> nil\<close>). The manager owns the
  scheduler and the map of workers; the task function it registers is the full-tree
  sync of the pair, so the callable is identified with the pair it closes over.
\<close>

record PairWorker =
  WPair :: Pair
  started :: bool

record PairManager =
  scheduler :: "Pair Scheduler"
  workers :: "string \<rightharpoonup> PairWorker"

definition NewPairManager :: PairManager where
  "NewPairManager = \<lparr>scheduler = NewScheduler, workers = Map.empty\<rparr>"

definition NewPairWorker :: "Pair \<Rightarrow> PairWorker" where
  "NewPairWorker pair = \<lparr>WPair = pair, started = False\<rparr>"

definition WorkerStart :: "PairWorker \<Rightarrow> error option \<times> PairWorker" where
  "WorkerStart w = (if started w then (None, w) else (None, w\<lparr>started := True\<rparr>))"

definition WorkerStop :: "PairWorker \<Rightarrow> PairWorker" where
  "WorkerStop w = (if \<not> started w then w else w\<lparr>started := False\<rparr>)"

definition StartPair :: "Lib \<Rightarrow> int \<Rightarrow> Pair \<Rightarrow> PairManager \<Rightarrow> error option \<times> PairManager" where
  "StartPair lib now pair pm =
     (let pm1 = (case workers pm (ID pair) of
                   Some worker \<Rightarrow>
                     pm\<lparr>scheduler := snd (RemoveTask (ID pair) (scheduler pm)),
                        workers := (workers pm)(ID pair := None)\<rparr>
                 | None \<Rightarrow> pm);
          description = (if Description pair = [] then ''Sync '' @ ID pair
                         else Description pair)
      in case AddTask lib now (ID pair) description (PSchedule pair) pair (scheduler pm1) of
           (Some err, s') \<Rightarrow> (Some err, pm1\<lparr>scheduler := s'\<rparr>)
         | (None, s') \<Rightarrow>
             if Type (PSchedule pair) = ScheduleTypeWatcher
               then (case WorkerStart (NewPairWorker pair) of
                       (Some err, worker) \<Rightarrow>
                         (Some err, pm1\<lparr>scheduler := snd (RemoveTask (ID pair) s')\<rparr>)
                     | (None, worker) \<Rightarrow>
                         (None, pm1\<lparr>scheduler := s',
                                     workers := (workers pm1)(ID pair \<mapsto> worker)\<rparr>))
             else (None, pm1\<lparr>scheduler := s'\<rparr>))"

definition StopPair :: "string \<Rightarrow> PairManager \<Rightarrow> error option \<times> PairManager" where
  "StopPair pairID pm =
     (let pm1 = (case workers pm pairID of
                   Some worker \<Rightarrow> pm\<lparr>workers := (workers pm)(pairID := None)\<rparr>
                 | None \<Rightarrow> pm)
      in case RemoveTask pairID (scheduler pm1) of
           (err, s') \<Rightarrow> (err, pm1\<lparr>scheduler := s'\<rparr>))"

definition UpdatePair :: "Lib \<Rightarrow> int \<Rightarrow> Pair \<Rightarrow> PairManager \<Rightarrow> error option \<times> PairManager" where
  "UpdatePair lib now pair pm =
     (case UpdateTask lib now (ID pair) (PSchedule pair) (scheduler pm) of
        (Some err, s') \<Rightarrow> (Some err, pm\<lparr>scheduler := s'\<rparr>)
      | (None, s') \<Rightarrow>
          (let pm1 = pm\<lparr>scheduler := s'\<rparr> in
           if Type (PSchedule pair) = ScheduleTypeWatcher
             then (if workers pm1 (ID pair) = None
                     then (case WorkerStart (NewPairWorker pair) of
                             (Some err, worker) \<Rightarrow> (Some err, pm1)
                           | (None, worker) \<Rightarrow>
                               (None, pm1\<lparr>workers := (workers pm1)(ID pair \<mapsto> worker)\<rparr>))
                   else (None, pm1))
           else (case workers pm1 (ID pair) of
                   Some worker \<Rightarrow> (None, pm1\<lparr>workers := (workers pm1)(ID pair := None)\<rparr>)
                 | None \<Rightarrow> (None, pm1))))"

text \<open>What \<open>GetPairStatus\<close> reports as \<open>WatcherActive\<close>: the pair has a worker.\<close>

definition WatcherActive :: "PairManager \<Rightarrow> string \<Rightarrow> bool" where
  "WatcherActive pm pairID = (workers pm pairID \<noteq> None)"

section \<open>File system\<close>

text \<open>
  The file system is a table from clean absolute paths to nodes: regular files with
  their bytes and modification time, and directories. Each operating-system call the
  program makes is a function on the table. A call fails for a reason visible in the
  table (a missing file, a directory in the way) or because the environment makes it
  fail (a lock, a full disk, a permission): \<open>faulty env call\<close>. The environment also
  holds the clock, the size and time the system reports for a directory, the number
  of bytes a failing copy has moved, and the SHA-256 function.
\<close>

datatype node = File (content: string) (modTime: int) | Directory

type_synonym filesystem = "(path \<times> node) list"

datatype errno = ENOENT | ENOTDIR | EISDIR | EEXIST | ENOTEMPTY | EIO

datatype syscall =
    SysOpen path | SysCreate path | SysRead path | SysWrite path | SysClose path
  | SysStat path | SysChtimes path | SysRename path path | SysRemove path | SysMkdir path

record os_env =
  faulty :: "syscall \<Rightarrow> bool"
  partialBytes :: nat
  clock :: int
  dirStat :: "path \<Rightarrow> int \<times> int"
  sha256 :: "string \<Rightarrow> string"

record FileInfo =
  isDir :: bool
  fsize :: int
  mtime :: int


text \<open>The directories a path runs through: its proper prefixes that end before a separator.\<close>

definition ancestors :: "path \<Rightarrow> path list" where
  "ancestors p = map (\<lambda>i. take i p) (filter (\<lambda>i. p ! i = Separator) [1..<length p])"

fun resolve :: "filesystem \<Rightarrow> path list \<Rightarrow> errno option" where
  "resolve fs [] = None"
| "resolve fs (d # ds) =
     (case map_of fs d of
        None \<Rightarrow> Some ENOENT
      | Some (File c m) \<Rightarrow> Some ENOTDIR
      | Some Directory \<Rightarrow> resolve fs ds)"

definition lookupPath :: "filesystem \<Rightarrow> path \<Rightarrow> errno + node" where
  "lookupPath fs p =
     (case resolve fs (ancestors p) of
        Some e \<Rightarrow> Inl e
      | None \<Rightarrow> (case map_of fs p of None \<Rightarrow> Inl ENOENT | Some n \<Rightarrow> Inr n))"

definition infoOf :: "os_env \<Rightarrow> path \<Rightarrow> node \<Rightarrow> FileInfo" where
  "infoOf env p n =
     (case n of
        File c m \<Rightarrow> \<lparr>isDir = False, fsize = int (length c), mtime = m\<rparr>
      | Directory \<Rightarrow> \<lparr>isDir = True, fsize = fst (dirStat env p), mtime = snd (dirStat env p)\<rparr>)"

definition Stat :: "os_env \<Rightarrow> filesystem \<Rightarrow> path \<Rightarrow> errno + FileInfo" where
  "Stat env fs p =
     (if faulty env (SysStat p) then Inl EIO
      else case lookupPath fs p of Inl e \<Rightarrow> Inl e | Inr n \<Rightarrow> Inr (infoOf env p n))"

definition Open :: "os_env \<Rightarrow> filesystem \<Rightarrow> path \<Rightarrow> errno + node" where
  "Open env fs p = (if faulty env (SysOpen p) then Inl EIO else lookupPath fs p)"

text \<open>\<open>os.Create\<close>: create the file or truncate it; a directory of that name is in the way.\<close>

definition Create :: "os_env \<Rightarrow> filesystem \<Rightarrow> path \<Rightarrow> errno + filesystem" where
  "Create env fs p =
     (if faulty env (SysCreate p) then Inl EIO
      else case resolve fs (ancestors p) of
             Some e \<Rightarrow> Inl e
           | None \<Rightarrow>
               (case map_of fs p of
                  Some Directory \<Rightarrow> Inl EISDIR
                | _ \<Rightarrow> Inr (AList.update p (File [] (clock env)) fs)))"

text \<open>
  \<open>io.CopyBuffer\<close> from the open source into the open temporary file: all bytes, or
  the first \<open>partialBytes\<close> and an error. Reading a directory fails at once.
\<close>

definition CopyBuffer ::
  "os_env \<Rightarrow> filesystem \<Rightarrow> path \<Rightarrow> path \<Rightarrow> filesystem \<times> int \<times> errno option" where
  "CopyBuffer env fs dst src =
     (case map_of fs src of
        Some (File c m) \<Rightarrow>
          if faulty env (SysRead src) \<or> faulty env (SysWrite dst)
            then (AList.update dst (File (take (partialBytes env) c) (clock env)) fs,
                  int (length (take (partialBytes env) c)), Some EIO)
          else (AList.update dst (File c (clock env)) fs, int (length c), None)
      | Some Directory \<Rightarrow> (fs, 0, Some EISDIR)
      | None \<Rightarrow> (fs, 0, Some EIO))"

definition Close :: "os_env \<Rightarrow> path \<Rightarrow> errno option" where
  "Close env p = (if faulty env (SysClose p) then Some EIO else None)"

definition Chtimes :: "os_env \<Rightarrow> filesystem \<Rightarrow> path \<Rightarrow> int \<Rightarrow> filesystem" where
  "Chtimes env fs p t =
     (if faulty env (SysChtimes p) then fs
      else case map_of fs p of
             Some (File c m) \<Rightarrow> AList.update p (File c t) fs
           | _ \<Rightarrow> fs)"

text \<open>
  \<open>os.Rename\<close> of a file: it replaces a file of the new name, never a directory
  (\<open>os.Rename\<close> reports a directory at the new name as \<open>EEXIST\<close>).
\<close>

definition Rename :: "os_env \<Rightarrow> filesystem \<Rightarrow> path \<Rightarrow> path \<Rightarrow> errno + filesystem" where
  "Rename env fs oldpath newpath =
     (if faulty env (SysRename oldpath newpath) then Inl EIO
      else case lookupPath fs oldpath of
             Inl e \<Rightarrow> Inl e
           | Inr n \<Rightarrow>
               (case resolve fs (ancestors newpath) of
                  Some e \<Rightarrow> Inl e
                | None \<Rightarrow>
                    (case map_of fs newpath of
                       Some Directory \<Rightarrow> Inl EEXIST
                     | _ \<Rightarrow> Inr (AList.update newpath n (AList.delete oldpath fs)))))"

definition hasChildren :: "filesystem \<Rightarrow> path \<Rightarrow> bool" where
  "hasChildren fs p = list_ex (\<lambda>q. HasPrefix q (p @ [Separator])) (map fst fs)"

definition Remove :: "os_env \<Rightarrow> filesystem \<Rightarrow> path \<Rightarrow> filesystem \<times> errno option" where
  "Remove env fs p =
     (if faulty env (SysRemove p) then (fs, Some EIO)
      else case lookupPath fs p of
             Inl e \<Rightarrow> (fs, Some e)
           | Inr (File c m) \<Rightarrow> (AList.delete p fs, None)
           | Inr Directory \<Rightarrow>
               if hasChildren fs p then (fs, Some ENOTEMPTY) else (AList.delete p fs, None))"






text \<open>
  \<open>filepath.WalkDir\<close> visits the root and then everything below it in lexical order
  of the path elements, a directory before its contents. Ordering whole paths with the
  separator below every other byte gives that order. A directory listing never holds
  the names \<open>.\<close> and \<open>..\<close>. The listing is the one of the table when the walk
  starts; an entry is a path and whether it is a directory.
\<close>

definition pathKey :: "path \<Rightarrow> nat list" where
  "pathKey p = map (\<lambda>c. if c = Separator then 0 else Suc (of_char c)) p"







section \<open>Copy engine\<close>

text \<open>
  \<open>copyAtomic\<close> (the copier): open the source, create \<open>target.tmp\<close>, copy, close,
  carry the source's modification time over as best effort, rename the temporary file
  onto the target. The results of the two \<open>os.Remove\<close> calls and of \<open>os.Chtimes\<close>
  are dropped, as in the source. The result is the table, the bytes copied and the error.
\<close>

definition tempPathOf :: "path \<Rightarrow> path" where
  "tempPathOf targetPath = targetPath @ ''.tmp''"

definition preserveModTime :: "os_env \<Rightarrow> filesystem \<Rightarrow> path \<Rightarrow> path \<Rightarrow> filesystem" where
  "preserveModTime env fs sourcePath tempPath =
     (case Stat env fs sourcePath of
        Inr sourceInfo \<Rightarrow> Chtimes env fs tempPath (mtime sourceInfo)
      | Inl e \<Rightarrow> fs)"

definition copyAtomic ::
  "os_env \<Rightarrow> filesystem \<Rightarrow> path \<Rightarrow> path \<Rightarrow> filesystem \<times> int \<times> errno option" where
  "copyAtomic env fs sourcePath targetPath =
     (let tempPath = tempPathOf targetPath in
      case Open env fs sourcePath of
        Inl e \<Rightarrow> (fs, 0, Some e)
      | Inr sourceFile \<Rightarrow>
          (case Create env fs tempPath of
             Inl e \<Rightarrow> (fs, 0, Some e)
           | Inr fs1 \<Rightarrow>
               (case CopyBuffer env fs1 tempPath sourcePath of
                  (fs2, bytesCopied, copyErr0) \<Rightarrow>
                    (let closeErr = Close env tempPath;
                         copyErr = (if copyErr0 = None then closeErr else copyErr0)
                     in case copyErr of
                          Some e \<Rightarrow> (fst (Remove env fs2 tempPath), bytesCopied, Some e)
                        | None \<Rightarrow>
                            (let fs3 = preserveModTime env fs2 sourcePath tempPath in
                             case Rename env fs3 tempPath targetPath of
                               Inl e \<Rightarrow> (fst (Remove env fs3 tempPath), bytesCopied, Some e)
                             | Inr fs4 \<Rightarrow> (fs4, bytesCopied, None))))))"

text \<open>
  The same call as the sequence of tables it passes through, one per operating-system
  call that can change the table, the table before the call first.
\<close>

definition copyAtomicStates :: "os_env \<Rightarrow> filesystem \<Rightarrow> path \<Rightarrow> path \<Rightarrow> filesystem list" where
  "copyAtomicStates env fs sourcePath targetPath =
     (let tempPath = tempPathOf targetPath in
      case Open env fs sourcePath of
        Inl e \<Rightarrow> [fs]
      | Inr sourceFile \<Rightarrow>
          (case Create env fs tempPath of
             Inl e \<Rightarrow> [fs]
           | Inr fs1 \<Rightarrow>
               (case CopyBuffer env fs1 tempPath sourcePath of
                  (fs2, bytesCopied, copyErr0) \<Rightarrow>
                    (let closeErr = Close env tempPath;
                         copyErr = (if copyErr0 = None then closeErr else copyErr0)
                     in case copyErr of
                          Some e \<Rightarrow> [fs, fs1, fs2, fst (Remove env fs2 tempPath)]
                        | None \<Rightarrow>
                            (let fs3 = preserveModTime env fs2 sourcePath tempPath in
                             case Rename env fs3 tempPath targetPath of
                               Inl e \<Rightarrow> [fs, fs1, fs2, fs3, fst (Remove env fs3 tempPath)]
                             | Inr fs4 \<Rightarrow> [fs, fs1, fs2, fs3, fs4])))))"

text \<open>
  A reader running beside the copy looks the target up between two calls of the
  writer. A schedule says who moves next; \<open>observe\<close> collects what the reader sees.
\<close>

datatype actor = Writer | Reader

fun observe :: "actor list \<Rightarrow> filesystem list \<Rightarrow> filesystem \<Rightarrow> path \<Rightarrow> node option list" where
  "observe [] pending current d = []"
| "observe (Reader # sched) pending current d =
     map_of current d # observe sched pending current d"
| "observe (Writer # sched) [] current d = observe sched [] current d"
| "observe (Writer # sched) (nxt # pending) current d = observe sched pending nxt d"

definition readersSee :: "actor list \<Rightarrow> os_env \<Rightarrow> filesystem \<Rightarrow> path \<Rightarrow> path \<Rightarrow> node option list" where
  "readersSee sched env fs s d =
     observe sched (tl (copyAtomicStates env fs s d)) fs d"






























section \<open>Watcher: one file event\<close>









section \<open>Reachable states of the pair manager\<close>

text \<open>
  The states the manager reaches through its own operations: starting, stopping and
  updating pairs, whatever the call returns, and sync-now runs.
\<close>

inductive reachable :: "Lib \<Rightarrow> PairManager \<Rightarrow> bool" for lib :: Lib where
  reach_new: "reachable lib NewPairManager"
| reach_start: "reachable lib pm \<Longrightarrow> reachable lib (snd (StartPair lib now pair pm))"
| reach_stop: "reachable lib pm \<Longrightarrow> reachable lib (snd (StopPair pairID pm))"
| reach_update: "reachable lib pm \<Longrightarrow> reachable lib (snd (UpdatePair lib now pair pm))"
| reach_sync:
    "reachable lib pm \<Longrightarrow>
       reachable lib (pm\<lparr>scheduler := snd (RunTaskNow now res pairID (scheduler pm))\<rparr>)"

section \<open>Example inputs\<close>

definition exLib :: Lib where
  "exLib = \<lparr>ParseDuration = (\<lambda>s. if s = ''1h'' then Some (60 * Minute) else None),
            ParseClock = (\<lambda>s. None),
            CronNext = (\<lambda>s now. None)\<rparr>"

definition exSchedule :: "string \<Rightarrow> Schedule" where
  "exSchedule ty = \<lparr>Type = ty, Interval = [], CronExpr = [], Custom = None,
     StartDate = None, EndDate = None, MaxRuns = 0\<rparr>"

definition exPair :: "string \<Rightarrow> string list \<Rightarrow> Pair" where
  "exPair ty exts = \<lparr>ID = ''p'', Enabled = True, Source = ''/s'', Target = ''/t'',
     IncludeExt = exts, ExcludeGlobs = [], SyncStrategy = ''mtime'', DebounceMs = 300,
     MirrorDeletes = True, Hooks = [], PSchedule = exSchedule ty, Description = []\<rparr>"

definition exCronPair :: Pair where
  "exCronPair = (exPair ''cron'' [])\<lparr>PSchedule := (exSchedule ''cron'')\<lparr>CronExpr := ''garbage''\<rparr>\<rparr>"

definition exTask :: "unit Task" where
  "exTask = \<lparr>TID = ''p'', Name = ''Sync p'', TSchedule = exSchedule ''disabled'',
     TEnabled = True, LastRun = None, NextRun = None, RunCount = 0, FailCount = 0,
     LastError = [], fn = (), cronEntry = 0, ticker = None, stopChan = 0\<rparr>"



definition exHook :: Hook where
  "exHook = \<lparr>MatchExtensions = [''.jar''], MatchGlobs = [''docs/readme.md''],
     HTTP_URL = Some ''http://localhost/hook'', Command_Executable = None\<rparr>"

definition exMatch :: matcher where
  "exMatch pattern name = (pattern = name)"

definition exEnv :: os_env where
  "exEnv = \<lparr>faulty = (\<lambda>c. False), partialBytes = 0, clock = 100,
            dirStat = (\<lambda>p. (4096, 0)), sha256 = (\<lambda>s. s)\<rparr>"


definition exBlockedFs :: filesystem where
  "exBlockedFs = [(''/s'', Directory), (''/s/a.txt'', File ''hi'' 5),
                  (''/t'', Directory), (''/t/a.txt'', Directory)]"

definition exStaleFs :: filesystem where
  "exStaleFs = [(''/s'', Directory), (''/t'', Directory),
                (''/t/a.txt.tmp'', File ''stale'' 1)]"

definition exOldFs :: filesystem where
  "exOldFs = [(''/s'', Directory), (''/s/a.txt'', File ''hi'' 5),
              (''/t'', Directory), (''/t/a.txt'', File ''old'' 1)]"



section \<open>Filters: proofs\<close>

lemma includeLoop_iff: "includeLoop exts fe \<longleftrightarrow> (\<exists>e\<in>set exts. ToLower e = fe)"
  by (induction exts) auto

lemma globLoop_iff: "globLoop pm gs p \<longleftrightarrow> (\<exists>g\<in>set gs. pm g p)"
  by (induction gs) auto

lemma matchAll_stays:
  "normalizeLoop xs (n, True, s) = (n', m', s') \<Longrightarrow> m'"
  by (induction xs arbitrary: n s) (auto simp: Let_def split: if_splits)

lemma wildcard_sets_matchAll:
  "\<exists>e\<in>set xs. TrimSpace (ToLower e) = ''*'' \<or> TrimSpace (ToLower e) = ''.*'' \<Longrightarrow>
   normalizeLoop xs (n, m, s) = (n', m', s') \<Longrightarrow> m'"
proof (induction xs arbitrary: n m s)
  case Nil
  then show ?case by simp
next
  case (Cons x xs)
  then show ?case
    by (auto simp: Let_def split: if_splits dest: matchAll_stays)
qed

text \<open>
  Claim C8, as stated: every list with a wildcard entry makes \<open>MatchesInclude\<close> true
  for every path. \<open>MatchesInclude\<close> itself knows no wildcard: it compares the entry
  \<open>*\<close> with the extension \<open>.txt\<close> and rejects the file.
\<close>

theorem MatchesInclude_wildcard_counterexample:
  "\<not> MatchesInclude [''*''] ''a.txt'' \<and> \<not> MatchesInclude [''.*''] ''a.txt''"
  by (simp add: MatchesInclude_def Ext_def ToLower_def toLowerByte_def Separator_def)

text \<open>
  Claim C8, amended: the wildcard is collapsed by \<open>normalizeIncludeExtensions\<close>, which
  pair validation runs. If an entry of the pair's list is \<open>*\<close> or \<open>.*\<close> once
  lowercased and trimmed, the normalized list is empty, and \<open>MatchesInclude\<close> on the
  normalized list accepts every path.
\<close>

theorem normalized_wildcard_matches_all:
  assumes "\<exists>e\<in>set (IncludeExt pair).
             TrimSpace (ToLower e) = ''*'' \<or> TrimSpace (ToLower e) = ''.*''"
  shows "IncludeExt (normalizeIncludeExtensions pair) = [] \<and>
         MatchesInclude (IncludeExt (normalizeIncludeExtensions pair)) filePath"
proof -
  obtain n m s where l: "normalizeLoop (IncludeExt pair) ([], False, {}) = (n, m, s)"
    by (cases "normalizeLoop (IncludeExt pair) ([], False, {})") auto
  from wildcard_sets_matchAll [OF assms l] have m by simp
  moreover from assms have "IncludeExt pair \<noteq> []" by auto
  ultimately have "IncludeExt (normalizeIncludeExtensions pair) = []"
    by (simp add: normalizeIncludeExtensions_def l)
  then show ?thesis by (simp add: MatchesInclude_def)
qed

theorem normalized_wildcard_matches_all_witness:
  "IncludeExt (normalizeIncludeExtensions (exPair ''watcher'' [''JPG'', '' .* ''])) = [] \<and>
   MatchesInclude
     (IncludeExt (normalizeIncludeExtensions (exPair ''watcher'' [''JPG'', '' .* ''])))
     ''a.txt''"
proof -
  have h: "\<exists>e\<in>set (IncludeExt (exPair ''watcher'' [''JPG'', '' .* ''])).
             TrimSpace (ToLower e) = ''*'' \<or> TrimSpace (ToLower e) = ''.*''"
    by (simp add: exPair_def TrimSpace_def ToLower_def toLowerByte_def isSpace_def)
  from normalized_wildcard_matches_all [OF h] show ?thesis .
qed

text \<open>
  Claim C10: a hook triggers exactly when both of its filter lists are empty, or the
  extension list is non-empty and the path's lowercased extension equals a lowercased
  entry, or the glob list is non-empty and a pattern matches the path: the two
  filters combine as a disjunction. The exported \<open>ShouldTriggerHook\<close> decides the same.
\<close>

theorem hook_filters_are_a_disjunction:
  "(shouldTriggerHook pathMatch hook filePath \<longleftrightarrow>
      (MatchExtensions hook = [] \<and> MatchGlobs hook = []) \<or>
      (MatchExtensions hook \<noteq> [] \<and>
         (\<exists>e\<in>set (MatchExtensions hook). ToLower e = ToLower (Ext filePath))) \<or>
      (MatchGlobs hook \<noteq> [] \<and>
         (\<exists>g\<in>set (MatchGlobs hook). pathMatch g (ToSlash filePath)))) \<and>
   ShouldTriggerHook pathMatch (MatchExtensions hook) (MatchGlobs hook) filePath =
     shouldTriggerHook pathMatch hook filePath"
  by (auto simp: shouldTriggerHook_def ShouldTriggerHook_def MatchesInclude_def
      MatchesAnyGlob_def includeLoop_iff globLoop_iff)

theorem hook_filters_are_a_disjunction_witness:
  "shouldTriggerHook exMatch exHook ''lib/app.jar'' \<and>
   shouldTriggerHook exMatch exHook ''docs/readme.md'' \<and>
   \<not> shouldTriggerHook exMatch exHook ''docs/notes.txt''"
  using hook_filters_are_a_disjunction [of exMatch exHook "''lib/app.jar''"]
        hook_filters_are_a_disjunction [of exMatch exHook "''docs/readme.md''"]
        hook_filters_are_a_disjunction [of exMatch exHook "''docs/notes.txt''"]
  by (simp add: exHook_def exMatch_def Ext_def ToLower_def toLowerByte_def Separator_def
      ToSlash_def)

section \<open>Scheduler: proofs\<close>

text \<open>
  Claim C3 says every completed run raises \<open>run_count + fail_count\<close> by exactly one.
  A run whose task function returns an error raises both counters, so the sum grows
  by two: from a fresh task, one failed run leaves \<open>RunCount = 1\<close> and
  \<open>FailCount = 1\<close>.
\<close>

theorem executeTask_error_counts_twice:
  "RunCount (executeTask startTime (ReturnsError msg) task)
     + FailCount (executeTask startTime (ReturnsError msg) task)
   = RunCount task + FailCount task + 2 \<and>
   RunCount (executeTask 7 (ReturnsError ''boom'') exTask) = 1 \<and>
   FailCount (executeTask 7 (ReturnsError ''boom'') exTask) = 1"
  by (simp add: Let_def exTask_def)




section \<open>Pair manager: proofs\<close>

text \<open>
  Claim C4 says that in every reachable state a watcher runs for a pair exactly when
  the pair's schedule is the watcher schedule and the pair is enabled. \<open>UpdatePair\<close>
  first has the scheduler replace the task's schedule and returns at once when the new
  schedule cannot be started, before the step that stops a watcher no longer needed.
  Start pair \<open>p\<close> with the watcher schedule, then update it to a cron schedule whose
  expression the cron library rejects: the update returns the error, and in the state
  it leaves the watcher of \<open>p\<close> still runs while the enabled task of \<open>p\<close> has the
  cron schedule.
\<close>

theorem UpdatePair_failure_keeps_watcher:
  "reachable exLib
     (snd (UpdatePair exLib 1 exCronPair
        (snd (StartPair exLib 0 (exPair ''watcher'' []) NewPairManager)))) \<and>
   fst (UpdatePair exLib 1 exCronPair
        (snd (StartPair exLib 0 (exPair ''watcher'' []) NewPairManager)))
     = Some (RescheduleFailed ''p'' (InvalidCron ''garbage'')) \<and>
   WatcherActive
     (snd (UpdatePair exLib 1 exCronPair
        (snd (StartPair exLib 0 (exPair ''watcher'' []) NewPairManager)))) ''p'' \<and>
   (\<exists>task.
      tasks (scheduler (snd (UpdatePair exLib 1 exCronPair
        (snd (StartPair exLib 0 (exPair ''watcher'' []) NewPairManager))))) ''p'' = Some task \<and>
      TEnabled task \<and> Type (TSchedule task) = ScheduleTypeCron \<and>
      Type (TSchedule task) \<noteq> ScheduleTypeWatcher)"
proof -
  have "reachable exLib
     (snd (UpdatePair exLib 1 exCronPair
        (snd (StartPair exLib 0 (exPair ''watcher'' []) NewPairManager))))"
    by (rule reach_update [OF reach_start [OF reach_new]])
  then show ?thesis
    by (simp add: UpdatePair_def UpdateTask_def StartPair_def AddTask_def NewPairManager_def
        NewScheduler_def exPair_def exCronPair_def exSchedule_def exLib_def scheduleTask_def
        scheduleCronTask_def unscheduleTask_def ScheduleTypeDisabled_def
        ScheduleTypeWatcher_def ScheduleTypeInterval_def ScheduleTypeCron_def Let_def
        WorkerStart_def NewPairWorker_def WatcherActive_def)
qed

text \<open>
  Claim C5 says starting a pair whose id is already managed stops the old entry and
  registers the pair again, with or without a watcher. \<open>StartPair\<close> looks for the
  old entry in the worker map only: a pair registered without a watcher is not
  removed, and the scheduler refuses the second registration as a duplicate.
\<close>

theorem StartPair_twice_is_refused:
  "fst (StartPair exLib 0 (exPair ''disabled'' []) NewPairManager) = None \<and>
   fst (StartPair exLib 1 (exPair ''disabled'' [])
          (snd (StartPair exLib 0 (exPair ''disabled'' []) NewPairManager)))
     = Some (TaskExists ''p'')"
  by (simp add: StartPair_def AddTask_def NewPairManager_def NewScheduler_def exPair_def
      exSchedule_def scheduleTask_def ScheduleTypeDisabled_def ScheduleTypeWatcher_def Let_def)

section \<open>File system: proofs\<close>

lemma map_of_alist_update: "map_of (AList.update k v al) = (map_of al)(k \<mapsto> v)"
  by (rule update_conv')

lemma map_of_alist_delete: "map_of (AList.delete k al) = (map_of al)(k := None)"
  by (rule delete_conv')

lemma tempPath_neq: "tempPathOf d \<noteq> d"
  by (simp add: tempPathOf_def)

lemma ancestors_shorter: "a \<in> set (ancestors p) \<Longrightarrow> length a < length p"
  by (auto simp: ancestors_def)

lemma not_own_ancestor: "p \<notin> set (ancestors p)"
  using ancestors_shorter by blast

lemma resolve_cong:
  "(\<And>d. d \<in> set ds \<Longrightarrow> map_of fs' d = map_of fs d) \<Longrightarrow> resolve fs' ds = resolve fs ds"
  by (induction ds) (auto split: option.splits node.splits)


lemma Create_map:
  "Create env fs p = Inr fs1 \<Longrightarrow> map_of fs1 = (map_of fs)(p \<mapsto> File [] (clock env))"
  by (auto simp: Create_def map_of_alist_update split: if_splits option.splits node.splits)

lemma Create_resolves:
  "Create env fs p = Inr fs1 \<Longrightarrow> resolve fs (ancestors p) = None"
  by (auto simp: Create_def split: if_splits option.splits node.splits)

lemma CopyBuffer_frame:
  "CopyBuffer env fs t s = (fs2, n, err) \<Longrightarrow> q \<noteq> t \<Longrightarrow> map_of fs2 q = map_of fs q"
  by (auto simp: CopyBuffer_def map_of_alist_update split: if_splits option.splits node.splits)

lemma CopyBuffer_target:
  "CopyBuffer env fs t s = (fs2, n, err) \<Longrightarrow> map_of fs t = Some (File c m) \<Longrightarrow>
     \<exists>c' m'. map_of fs2 t = Some (File c' m')"
  by (auto simp: CopyBuffer_def map_of_alist_update split: if_splits option.splits node.splits)

lemma CopyBuffer_ok:
  "CopyBuffer env fs t s = (fs2, n, None) \<Longrightarrow>
     \<exists>c m. map_of fs s = Some (File c m) \<and> map_of fs2 = (map_of fs)(t \<mapsto> File c (clock env))
        \<and> n = int (length c)"
  by (auto simp: CopyBuffer_def map_of_alist_update split: if_splits option.splits node.splits)

lemma Chtimes_frame: "q \<noteq> p \<Longrightarrow> map_of (Chtimes env fs p t) q = map_of fs q"
  by (auto simp: Chtimes_def map_of_alist_update split: option.splits node.splits)

lemma Chtimes_target:
  "map_of fs p = Some (File c m) \<Longrightarrow> \<exists>m'. map_of (Chtimes env fs p t) p = Some (File c m')"
  by (auto simp: Chtimes_def map_of_alist_update split: option.splits node.splits)

lemma preserveModTime_frame:
  "q \<noteq> t \<Longrightarrow> map_of (preserveModTime env fs s t) q = map_of fs q"
  by (auto simp: preserveModTime_def Chtimes_frame split: sum.splits)

lemma preserveModTime_target:
  "map_of fs t = Some (File c m) \<Longrightarrow>
     \<exists>m'. map_of (preserveModTime env fs s t) t = Some (File c m')"
  by (auto simp: preserveModTime_def Chtimes_target split: sum.splits)

lemma Remove_frame: "q \<noteq> p \<Longrightarrow> map_of (fst (Remove env fs p)) q = map_of fs q"
  by (auto simp: Remove_def map_of_alist_delete split: sum.splits node.splits)

lemma Remove_file:
  "\<not> faulty env (SysRemove p) \<Longrightarrow> resolve fs (ancestors p) = None \<Longrightarrow>
   map_of fs p = Some (File c m) \<Longrightarrow> map_of (fst (Remove env fs p)) p = None"
  by (auto simp: Remove_def lookupPath_def map_of_alist_delete split: sum.splits node.splits)

lemma Rename_map:
  "Rename env fs old new = Inr fs4 \<Longrightarrow>
     \<exists>n. map_of fs old = Some n \<and> map_of fs4 = ((map_of fs)(old := None))(new \<mapsto> n)"
  by (auto simp: Rename_def lookupPath_def map_of_alist_update map_of_alist_delete
      split: if_splits sum.splits option.splits node.splits)

lemma copyAtomic_cases:
  assumes "copyAtomic env fs s d = (fs', n, err)"
  obtains
    (openFails) e where "Open env fs s = Inl e" "fs' = fs" "n = 0" "err = Some e"
  | (createFails) sf e where "Open env fs s = Inr sf" "Create env fs (tempPathOf d) = Inl e"
      "fs' = fs" "n = 0" "err = Some e"
  | (copyFails) sf fs1 fs2 ce e where "Open env fs s = Inr sf"
      "Create env fs (tempPathOf d) = Inr fs1"
      "CopyBuffer env fs1 (tempPathOf d) s = (fs2, n, ce)"
      "fs' = fst (Remove env fs2 (tempPathOf d))" "err = Some e"
      "(if ce = None then Close env (tempPathOf d) else ce) = Some e"
  | (renameFails) sf fs1 fs2 e where "Open env fs s = Inr sf"
      "Create env fs (tempPathOf d) = Inr fs1"
      "CopyBuffer env fs1 (tempPathOf d) s = (fs2, n, None)"
      "Rename env (preserveModTime env fs2 s (tempPathOf d)) (tempPathOf d) d = Inl e"
      "fs' = fst (Remove env (preserveModTime env fs2 s (tempPathOf d)) (tempPathOf d))"
      "err = Some e" "Close env (tempPathOf d) = None"
  | (renamed) sf fs1 fs2 where "Open env fs s = Inr sf"
      "Create env fs (tempPathOf d) = Inr fs1"
      "CopyBuffer env fs1 (tempPathOf d) s = (fs2, n, None)"
      "Rename env (preserveModTime env fs2 s (tempPathOf d)) (tempPathOf d) d = Inr fs'"
      "err = None" "Close env (tempPathOf d) = None"
  using assms unfolding copyAtomic_def Let_def
  by (auto split: sum.splits prod.splits option.splits if_splits)



lemma temp_written:
  assumes "Create env fs t = Inr fs1" and "CopyBuffer env fs1 t s = (fs2, n, ce)"
  shows "resolve fs2 (ancestors t) = None" and "\<exists>c m. map_of fs2 t = Some (File c m)"
proof -
  have "resolve fs2 (ancestors t) = resolve fs (ancestors t)"
  proof (rule resolve_cong)
    fix a assume "a \<in> set (ancestors t)"
    then have "a \<noteq> t" using not_own_ancestor by blast
    then show "map_of fs2 a = map_of fs a"
      by (simp add: CopyBuffer_frame [OF assms(2)] Create_map [OF assms(1)])
  qed
  then show "resolve fs2 (ancestors t) = None"
    by (simp add: Create_resolves [OF assms(1)])
  have "map_of fs1 t = Some (File [] (clock env))"
    by (simp add: Create_map [OF assms(1)])
  from CopyBuffer_target [OF assms(2) this] show "\<exists>c m. map_of fs2 t = Some (File c m)" .
qed

lemma temp_kept_by_preserve:
  assumes "resolve fs2 (ancestors t) = None" and "map_of fs2 t = Some (File c m)"
  shows "resolve (preserveModTime env fs2 s t) (ancestors t) = None"
    and "\<exists>m'. map_of (preserveModTime env fs2 s t) t = Some (File c m')"
proof -
  have "resolve (preserveModTime env fs2 s t) (ancestors t) = resolve fs2 (ancestors t)"
  proof (rule resolve_cong)
    fix a assume "a \<in> set (ancestors t)"
    then have "a \<noteq> t" using not_own_ancestor by blast
    then show "map_of (preserveModTime env fs2 s t) a = map_of fs2 a"
      by (simp add: preserveModTime_frame)
  qed
  then show "resolve (preserveModTime env fs2 s t) (ancestors t) = None"
    using assms(1) by simp
  show "\<exists>m'. map_of (preserveModTime env fs2 s t) t = Some (File c m')"
    by (rule preserveModTime_target [OF assms(2)])
qed

lemma copyAtomic_error_effects:
  assumes "copyAtomic env fs s d = (fs', n, Some e)"
  shows "map_of fs' d = map_of fs d \<and>
         (isl (Open env fs s) \<or> isl (Create env fs (tempPathOf d)) \<longrightarrow> fs' = fs) \<and>
         (\<not> isl (Open env fs s) \<and> \<not> isl (Create env fs (tempPathOf d)) \<and>
            \<not> faulty env (SysRemove (tempPathOf d)) \<longrightarrow> map_of fs' (tempPathOf d) = None)"
  using assms
proof (cases rule: copyAtomic_cases)
  case (openFails e')
  then show ?thesis by simp
next
  case (createFails sf e')
  then show ?thesis by simp
next
  case (copyFails sf fs1 fs2 ce e')
  have d: "map_of fs' d = map_of fs d"
    using copyFails tempPath_neq [of d]
    by (simp add: Remove_frame CopyBuffer_frame [OF copyFails(3)] Create_map [OF copyFails(2)])
  from temp_written [OF copyFails(2,3)] obtain c m where
    t: "resolve fs2 (ancestors (tempPathOf d)) = None" "map_of fs2 (tempPathOf d) = Some (File c m)"
    by blast
  have "\<not> faulty env (SysRemove (tempPathOf d)) \<Longrightarrow> map_of fs' (tempPathOf d) = None"
    using Remove_file [OF _ t] copyFails(4) by simp
  then show ?thesis using d copyFails(1,2) by auto
next
  case (renameFails sf fs1 fs2 e')
  have d: "map_of fs' d = map_of fs d"
    using renameFails tempPath_neq [of d]
    by (simp add: Remove_frame preserveModTime_frame CopyBuffer_frame [OF renameFails(3)]
        Create_map [OF renameFails(2)])
  from temp_written [OF renameFails(2,3)] obtain c m where
    t: "resolve fs2 (ancestors (tempPathOf d)) = None" "map_of fs2 (tempPathOf d) = Some (File c m)"
    by blast
  from temp_kept_by_preserve [OF t, of env s] obtain m' where
    t3: "resolve (preserveModTime env fs2 s (tempPathOf d)) (ancestors (tempPathOf d)) = None"
        "map_of (preserveModTime env fs2 s (tempPathOf d)) (tempPathOf d) = Some (File c m')"
    by blast
  have "\<not> faulty env (SysRemove (tempPathOf d)) \<Longrightarrow> map_of fs' (tempPathOf d) = None"
    using Remove_file [OF _ t3] renameFails(5) by simp
  then show ?thesis using d renameFails(1,2) by auto
next
  case (renamed sf fs1 fs2)
  then show ?thesis using assms by simp
qed

lemma copyAtomic_success:
  assumes "copyAtomic env fs s d = (fs', n, None)"
  shows "\<exists>c m. map_of fs' d = Some (File c m) \<and> n = int (length c) \<and>
           map_of fs' (tempPathOf d) = None \<and>
           (s \<noteq> tempPathOf d \<longrightarrow> (\<exists>m0. map_of fs s = Some (File c m0)))"
  using assms
proof (cases rule: copyAtomic_cases)
  case (renamed sf fs1 fs2)
  from CopyBuffer_ok [OF renamed(3)] obtain c m where
    c: "map_of fs1 s = Some (File c m)"
       "map_of fs2 = (map_of fs1)(tempPathOf d \<mapsto> File c (clock env))" "n = int (length c)"
    by blast
  have "map_of fs2 (tempPathOf d) = Some (File c (clock env))" by (simp add: c(2))
  from preserveModTime_target [OF this, of env s] obtain m' where
    p: "map_of (preserveModTime env fs2 s (tempPathOf d)) (tempPathOf d) = Some (File c m')"
    by blast
  from Rename_map [OF renamed(4)] p have
    r: "map_of fs' = ((map_of (preserveModTime env fs2 s (tempPathOf d)))(tempPathOf d := None))
          (d \<mapsto> File c m')" by auto
  have "s \<noteq> tempPathOf d \<Longrightarrow> map_of fs s = Some (File c m)"
    using c(1) by (simp add: Create_map [OF renamed(2)])
  then show ?thesis using r c(3) tempPath_neq [of d] by auto
qed simp_all

text \<open>
  Claim C2, as stated: whenever \<open>copyAtomic\<close> returns an error, \<open>target.tmp\<close> has
  been removed. When the source cannot be opened the call returns before it touches
  the temporary file, and one left by an earlier run is still there.
\<close>

theorem copyAtomic_stale_temp_counterexample:
  "copyAtomic exEnv exStaleFs ''/s/a.txt'' ''/t/a.txt'' = (exStaleFs, 0, Some ENOENT) \<and>
   map_of exStaleFs (tempPathOf ''/t/a.txt'') = Some (File ''stale'' 1)"
  by code_simp

text \<open>
  Claim C2, amended: when \<open>copyAtomic\<close> returns an error the target is unchanged.
  If the source could not be opened or the temporary file could not be created, the
  file system is as it was, so an existing \<open>target.tmp\<close> stays. If the failure came
  later (copy, close or rename), \<open>target.tmp\<close> is gone, provided the removal itself
  is not made to fail (its result is dropped). When the call succeeds, the target is
  a file with the bytes the source had, all of them counted in the result, and the
  temporary file no longer exists: the target was replaced by the rename of the
  completely written temporary file.
\<close>

theorem copyAtomic_failure_keeps_target:
  assumes "copyAtomic env fs s d = (fs', n, err)"
  shows "(err \<noteq> None \<longrightarrow>
            map_of fs' d = map_of fs d \<and>
            (isl (Open env fs s) \<or> isl (Create env fs (tempPathOf d)) \<longrightarrow> fs' = fs) \<and>
            (\<not> isl (Open env fs s) \<and> \<not> isl (Create env fs (tempPathOf d)) \<and>
               \<not> faulty env (SysRemove (tempPathOf d))
             \<longrightarrow> map_of fs' (tempPathOf d) = None)) \<and>
         (err = None \<longrightarrow>
            (\<exists>c m. map_of fs' d = Some (File c m) \<and> n = int (length c) \<and>
               map_of fs' (tempPathOf d) = None \<and>
               (s \<noteq> tempPathOf d \<longrightarrow> (\<exists>m0. map_of fs s = Some (File c m0)))))"
proof (cases err)
  case None
  with copyAtomic_success [of env fs s d fs' n] assms show ?thesis by simp
next
  case (Some e)
  with copyAtomic_error_effects [of env fs s d fs' n e] assms show ?thesis by simp
qed

theorem copyAtomic_failure_keeps_target_witness:
  "copyAtomic exEnv exBlockedFs ''/s/a.txt'' ''/t/a.txt'' = (exBlockedFs, 2, Some EEXIST) \<and>
   map_of exBlockedFs ''/t/a.txt'' = Some Directory \<and>
   map_of exBlockedFs (tempPathOf ''/t/a.txt'') = None \<and>
   map_of (fst (copyAtomic exEnv exOldFs ''/s/a.txt'' ''/t/a.txt'')) ''/t/a.txt''
     = Some (File ''hi'' 5)"
proof -
  have h: "copyAtomic exEnv exBlockedFs ''/s/a.txt'' ''/t/a.txt''
             = (exBlockedFs, 2, Some EEXIST)"
    by code_simp
  have o: "\<not> isl (Open exEnv exBlockedFs ''/s/a.txt'')" by code_simp
  have c: "\<not> isl (Create exEnv exBlockedFs (tempPathOf ''/t/a.txt''))" by code_simp
  have r: "\<not> faulty exEnv (SysRemove (tempPathOf ''/t/a.txt''))" by (simp add: exEnv_def)
  have g: "map_of (fst (copyAtomic exEnv exOldFs ''/s/a.txt'' ''/t/a.txt'')) ''/t/a.txt''
             = Some (File ''hi'' 5)"
    by code_simp
  from copyAtomic_failure_keeps_target [OF h] o c r g h show ?thesis
    by (simp add: exBlockedFs_def)
qed

lemma copyAtomicStates_target:
  assumes "st \<in> set (copyAtomicStates env fs s d)"
  shows "map_of st d = map_of fs d \<or> map_of st d = map_of (fst (copyAtomic env fs s d)) d"
proof -
  obtain fs' n err where c: "copyAtomic env fs s d = (fs', n, err)"
    by (cases "copyAtomic env fs s d") auto
  have neq: "d \<noteq> tempPathOf d" using tempPath_neq [of d] by simp
  from c show ?thesis
  proof (cases rule: copyAtomic_cases)
    case (openFails e)
    then show ?thesis using assms by (simp add: copyAtomicStates_def)
  next
    case (createFails sf e)
    then show ?thesis using assms by (simp add: copyAtomicStates_def)
  next
    case (copyFails sf fs1 fs2 ce e)
    have "copyAtomicStates env fs s d = [fs, fs1, fs2, fs']"
      using copyFails by (simp add: copyAtomicStates_def Let_def)
    moreover have "map_of fs1 d = map_of fs d" using neq
      by (simp add: Create_map [OF copyFails(2)])
    moreover have "map_of fs2 d = map_of fs d" using neq
      by (simp add: CopyBuffer_frame [OF copyFails(3)] Create_map [OF copyFails(2)])
    ultimately show ?thesis using assms c by auto
  next
    case (renameFails sf fs1 fs2 e)
    have "copyAtomicStates env fs s d =
            [fs, fs1, fs2, preserveModTime env fs2 s (tempPathOf d), fs']"
      using renameFails by (simp add: copyAtomicStates_def Let_def)
    moreover have "map_of fs1 d = map_of fs d" using neq
      by (simp add: Create_map [OF renameFails(2)])
    moreover have "map_of fs2 d = map_of fs d" using neq
      by (simp add: CopyBuffer_frame [OF renameFails(3)] Create_map [OF renameFails(2)])
    moreover have "map_of (preserveModTime env fs2 s (tempPathOf d)) d = map_of fs d"
      using neq
      by (simp add: preserveModTime_frame CopyBuffer_frame [OF renameFails(3)]
          Create_map [OF renameFails(2)])
    ultimately show ?thesis using assms c by auto
  next
    case (renamed sf fs1 fs2)
    have "copyAtomicStates env fs s d =
            [fs, fs1, fs2, preserveModTime env fs2 s (tempPathOf d), fs']"
      using renamed by (simp add: copyAtomicStates_def Let_def)
    moreover have "map_of fs1 d = map_of fs d" using neq
      by (simp add: Create_map [OF renamed(2)])
    moreover have "map_of fs2 d = map_of fs d" using neq
      by (simp add: CopyBuffer_frame [OF renamed(3)] Create_map [OF renamed(2)])
    moreover have "map_of (preserveModTime env fs2 s (tempPathOf d)) d = map_of fs d"
      using neq
      by (simp add: preserveModTime_frame CopyBuffer_frame [OF renamed(3)]
          Create_map [OF renamed(2)])
    ultimately show ?thesis using assms c by auto
  qed
qed

lemma copyAtomicStates_ends:
  "hd (copyAtomicStates env fs s d) = fs \<and>
   last (copyAtomicStates env fs s d) = fst (copyAtomic env fs s d) \<and>
   copyAtomicStates env fs s d \<noteq> []"
  by (auto simp: copyAtomicStates_def copyAtomic_def Let_def
      split: sum.splits prod.splits option.splits if_splits)

lemma observe_sees_states:
  "obs \<in> set (observe sched pending current d) \<Longrightarrow>
     \<exists>st \<in> set (current # pending). obs = map_of st d"
  by (induction sched pending current d rule: observe.induct) auto


text \<open>
  Claim C9: however a copy and the readers of its target interleave, a reader sees
  the target as it was before the copy or as it is after it, never anything else.
  A reader looks the target up between two operating-system calls of the writer, each
  call taken as one step; the sequence of tables starts with the table before the
  call and ends with the one \<open>copyAtomic\<close> returns.
\<close>

theorem readers_see_old_or_new:
  "(\<forall>obs \<in> set (readersSee sched env fs s d).
      obs = map_of fs d \<or> obs = map_of (fst (copyAtomic env fs s d)) d) \<and>
   hd (copyAtomicStates env fs s d) = fs \<and>
   last (copyAtomicStates env fs s d) = fst (copyAtomic env fs s d)"
proof -
  have "fs # tl (copyAtomicStates env fs s d) = copyAtomicStates env fs s d"
    using copyAtomicStates_ends [of env fs s d] by (cases "copyAtomicStates env fs s d") auto
  then have "\<And>obs. obs \<in> set (readersSee sched env fs s d) \<Longrightarrow>
      \<exists>st \<in> set (copyAtomicStates env fs s d). obs = map_of st d"
    using observe_sees_states [of _ sched "tl (copyAtomicStates env fs s d)" fs d]
    by (simp add: readersSee_def)
  then show ?thesis
    using copyAtomicStates_target [of _ env fs s d] copyAtomicStates_ends [of env fs s d]
    by blast
qed

theorem readers_see_old_or_new_witness:
  "readersSee [Reader, Writer, Reader, Writer, Writer, Reader, Writer, Reader]
      exEnv exOldFs ''/s/a.txt'' ''/t/a.txt''
     = [Some (File ''old'' 1), Some (File ''old'' 1), Some (File ''old'' 1),
        Some (File ''hi'' 5)] \<and>
   map_of (fst (copyAtomic exEnv exOldFs ''/s/a.txt'' ''/t/a.txt'')) ''/t/a.txt''
     = Some (File ''hi'' 5)"
  using readers_see_old_or_new
    [of "[Reader, Writer, Reader, Writer, Writer, Reader, Writer, Reader]"
        exEnv exOldFs "''/s/a.txt''" "''/t/a.txt''"]
  by code_simp


section \<open>Watcher: proofs\<close>




section \<open>Full-tree sync: proofs\<close>









lemma pathKey_inj: "pathKey a = pathKey b \<Longrightarrow> a = b"
proof -
  have "inj (\<lambda>c. if c = Separator then 0 else Suc (of_char c :: nat))"
    by (auto simp: inj_def split: if_splits)
  then have "inj (map (\<lambda>c. if c = Separator then 0 else Suc (of_char c :: nat)))"
    by (rule inj_mapI)
  then show "pathKey a = pathKey b \<Longrightarrow> a = b"
    by (auto simp: pathKey_def inj_def)
qed






























subsection \<open>The source walk\<close>






subsection \<open>The target walk\<close>










subsection \<open>Listings\<close>






subsection \<open>The whole run\<close>







end
